theory Spec2Isabelle
  imports Main "HOL-Library.Word"
begin

unbundle bit_operations_syntax

section \<open>The SAMD pin driver: ports/samd/machine_pin.c\<close>

text \<open>
  A shallow embedding of the pin driver of the SAMD port: the drive-strength, init and
  toggle methods of a pin, the registry of interrupt records (one slot per line of the
  external interrupt controller, EIC), the request for an interrupt, the teardown, the
  dispatch routine and the two methods an interrupt record offers (trigger, info).

  The driver's globals and the hardware registers it touches are the fields of one
  record; every function takes the state and returns the new one. A raise is the value
  \<open>Inl e\<close>, returned with the state as it is when the exception leaves the function.
\<close>

subsection \<open>Data\<close>

type_synonym u8 = "8 word"
type_synonym u32 = "32 word"

text \<open>The two targets of the conditional compilation.\<close>

datatype mcu = MCU_SAMD21 | MCU_SAMD51

text \<open>
  An object of the runtime is either \<open>mp_const_none\<close> or something else; of a handler the
  driver only asks which of the two it is.
\<close>

datatype mp_obj_t = mp_const_none | mp_callable nat

datatype error = ValueError string | MemoryError

text \<open>
  A pin object is a singleton of the board's pin table and is identified by its
  \<open>id\<close>: the functions below take the id where the source takes \<open>self\<close>.

  \<open>machine_pin_irq_obj_t\<close>: the fields \<open>handler\<close>, \<open>ishard\<close> and \<open>parent\<close> are those of
  the embedded \<open>mp_irq_obj_t base\<close>.
\<close>

record machine_pin_irq_obj_t =
  handler :: mp_obj_t
  ishard :: bool
  parent :: nat
  flags :: u32
  trigger :: u32
  pin_id :: u8

text \<open>
  The state. \<open>machine_pin_open_drain_mask\<close> (four words, one bit per pin) and
  \<open>machine_pin_irq_objects\<close> (sixteen pointers, \<open>None\<close> for \<open>NULL\<close>) are the driver's
  globals. The other fields are the hardware.

  The port, one entry per pin: \<open>PORT_DIR\<close> (the pin drives its line), \<open>PORT_OUT\<close> (the
  output latch), \<open>PORT_IN\<close> (the level sampled on the line), \<open>PORT_PULL\<close>,
  \<open>PORT_DRVSTR\<close> (the drive-strength bit of the pin's configuration register) and
  \<open>PORT_PMUX_EIC\<close> (the pin is routed to the EIC).

  The EIC: \<open>EIC_ENABLE\<close>, the interrupt-enable mask \<open>EIC_INTEN\<close> (seen through the
  registers INTENSET and INTENCLR), the pending flags \<open>EIC_INTFLAG\<close>, the sense
  configuration \<open>EIC_CONFIG\<close>, and \<open>EIC_SYNC\<close>: after how many reads the
  synchronisation-busy bit reads clear (\<open>None\<close>: never). \<open>CLK_APB_EIC\<close> and
  \<open>CLK_GCLK_EIC\<close> are the two clock enables, \<open>NVIC_enabled\<close> the interrupt numbers
  enabled at the top-level controller.

  \<open>irq_calls\<close> lists the lines whose record was handed to the runtime's
  \<open>mp_irq_handler\<close>, oldest first.
\<close>

record samd =
  machine_pin_open_drain_mask :: "u32 list"
  machine_pin_irq_objects :: "machine_pin_irq_obj_t option list"
  PORT_DIR :: "nat \<Rightarrow> bool"
  PORT_OUT :: "nat \<Rightarrow> bool"
  PORT_IN :: "nat \<Rightarrow> bool"
  PORT_PULL :: "nat \<Rightarrow> u32"
  PORT_DRVSTR :: "nat \<Rightarrow> bool"
  PORT_PMUX_EIC :: "nat \<Rightarrow> bool"
  EIC_ENABLE :: bool
  EIC_INTEN :: u32
  EIC_INTFLAG :: u32
  EIC_CONFIG :: "u32 list"
  EIC_SYNC :: "nat option"
  CLK_APB_EIC :: bool
  CLK_GCLK_EIC :: bool
  NVIC_enabled :: "nat set"
  irq_calls :: "nat list"

subsection \<open>The registers of the interrupt controller\<close>

text \<open>
  The source clears a pending flag and disables a line by writing a one
  (\<open>EIC->INTENCLR.reg = 0xffff;  // Disable all interrupts from the EIC\<close>,
  \<open>EIC->INTFLAG.reg |= mask; // clear the ISR flag\<close>) and enables a line by writing a
  one to INTENSET. So the three registers are modelled as the controller has them:
  reading INTFLAG gives the pending flags and a one written to it clears that flag;
  reading INTENSET or INTENCLR gives the enable mask, a one written to INTENSET sets
  that enable bit and a one written to INTENCLR clears it; a zero written changes
  nothing. An assignment \<open>reg = v\<close> is one write, \<open>reg |= v\<close> is a read, an OR and a
  write.
\<close>

definition EIC_INTFLAG_read :: "samd \<Rightarrow> u32" where
  "EIC_INTFLAG_read s = EIC_INTFLAG s"

definition EIC_INTFLAG_write :: "u32 \<Rightarrow> samd \<Rightarrow> samd" where
  "EIC_INTFLAG_write v s = s\<lparr>EIC_INTFLAG := EIC_INTFLAG s AND NOT v\<rparr>"

definition EIC_INTENCLR_read :: "samd \<Rightarrow> u32" where
  "EIC_INTENCLR_read s = EIC_INTEN s"

definition EIC_INTENCLR_write :: "u32 \<Rightarrow> samd \<Rightarrow> samd" where
  "EIC_INTENCLR_write v s = s\<lparr>EIC_INTEN := EIC_INTEN s AND NOT v\<rparr>"

definition EIC_INTENSET_read :: "samd \<Rightarrow> u32" where
  "EIC_INTENSET_read s = EIC_INTEN s"

definition EIC_INTENSET_write :: "u32 \<Rightarrow> samd \<Rightarrow> samd" where
  "EIC_INTENSET_write v s = s\<lparr>EIC_INTEN := EIC_INTEN s OR v\<rparr>"

text \<open>
  \<open>while (EIC->STATUS.bit.SYNCBUSY != 0) { }\<close> (SAMD21) and
  \<open>while (EIC->SYNCBUSY.bit.ENABLE != 0) { }\<close> (SAMD51): the loop has no body, so it
  leaves the state as it is when the bit clears, and does not return when the bit never
  clears. \<open>EIC_busy_reads n\<close> is the loop on a bit that reads busy \<open>n\<close> more times.
\<close>

fun EIC_busy_reads :: "nat \<Rightarrow> unit" where
  "EIC_busy_reads 0 = ()"
| "EIC_busy_reads (Suc n) = EIC_busy_reads n"

definition EIC_wait_sync :: "samd \<Rightarrow> samd option" where
  "EIC_wait_sync s =
     (case EIC_SYNC s of
        None \<Rightarrow> None
      | Some n \<Rightarrow> (case EIC_busy_reads n of () \<Rightarrow> Some s))"

definition NVIC_DisableIRQ :: "nat \<Rightarrow> samd \<Rightarrow> samd" where
  "NVIC_DisableIRQ n s = s\<lparr>NVIC_enabled := NVIC_enabled s - {n}\<rparr>"

definition NVIC_EnableIRQ :: "nat \<Rightarrow> samd \<Rightarrow> samd" where
  "NVIC_EnableIRQ n s = s\<lparr>NVIC_enabled := insert n (NVIC_enabled s)\<rparr>"

subsection \<open>The pin primitives of the port layer\<close>

text \<open>
  \<open>machine_pin.c\<close> calls these; they are defined outside it, in the port's
  \<open>mphalport.h\<close> and in the vendor's \<open>hal_gpio.h\<close>.
\<close>

text \<open>
  Modelled from the spec: \<open>mp_hal_get_pin_direction\<close> and the constant
  \<open>GPIO_DIRECTION_OUT\<close> are missing. The query is the pin's bit of the direction register
  and the constant is that bit's value for an output, so that both tests the source makes
  on the result, \<open>dir == GPIO_DIRECTION_OUT\<close> in init and \<open>if (pin_dir)\<close> in toggle
  (``Pin is output''), say that the pin is configured as output.
\<close>

definition GPIO_DIRECTION_OUT :: u32 where
  "GPIO_DIRECTION_OUT = 1"

definition mp_hal_get_pin_direction :: "samd \<Rightarrow> nat \<Rightarrow> u32" where
  "mp_hal_get_pin_direction s pin = (if PORT_DIR s pin then GPIO_DIRECTION_OUT else 0)"

text \<open>
  Modelled from the spec: \<open>gpio_get_pin_level\<close> / \<open>mp_hal_pin_read\<close> are missing. The
  level observed on an output pin is the level it drives; on an input it is the level
  of the line.
\<close>

definition mp_hal_pin_read :: "samd \<Rightarrow> nat \<Rightarrow> bool" where
  "mp_hal_pin_read s pin = (if PORT_DIR s pin then PORT_OUT s pin else PORT_IN s pin)"

text \<open>
  Modelled from the spec: \<open>mp_hal_pin_write\<close> and \<open>gpio_toggle_pin_level\<close> are missing.
  They are the direct push-pull register writes: set, or invert, the output latch of
  one pin.
\<close>

definition mp_hal_pin_write :: "nat \<Rightarrow> bool \<Rightarrow> samd \<Rightarrow> samd" where
  "mp_hal_pin_write pin v s = s\<lparr>PORT_OUT := (PORT_OUT s)(pin := v)\<rparr>"

definition gpio_toggle_pin_level :: "nat \<Rightarrow> samd \<Rightarrow> samd" where
  "gpio_toggle_pin_level pin s = s\<lparr>PORT_OUT := (PORT_OUT s)(pin := \<not> PORT_OUT s pin)\<rparr>"

text \<open>
  The open-drain flag of a pin, as the source has it:
  \<open>machine_pin_open_drain_mask[id / 32] & (1 << (id % 32))\<close>. The array has four words,
  so pin ids are below 128.
\<close>

definition GPIO_IS_OPEN_DRAIN :: "samd \<Rightarrow> nat \<Rightarrow> bool" where
  "GPIO_IS_OPEN_DRAIN s pin =
     ((machine_pin_open_drain_mask s ! (pin div 32)) AND push_bit (pin mod 32) 1 \<noteq> 0)"

definition open_drain_flag_update :: "nat \<Rightarrow> bool \<Rightarrow> samd \<Rightarrow> samd" where
  "open_drain_flag_update pin b s =
     (let w = machine_pin_open_drain_mask s ! (pin div 32);
          w' = (if b then w OR push_bit (pin mod 32) 1 else w AND NOT (push_bit (pin mod 32) 1))
      in s\<lparr>machine_pin_open_drain_mask := (machine_pin_open_drain_mask s)[pin div 32 := w']\<rparr>)"

text \<open>
  Modelled from the spec: \<open>mp_hal_pin_input\<close>, \<open>mp_hal_pin_output\<close> and
  \<open>mp_hal_pin_open_drain\<close> are missing. Each sets the direction of the pin and the
  pin's open-drain flag, which ``is set if and only if its last mode-configuring call
  requested open-drain''. Open drain is simulated: the pin is released (input, pulled
  up) and its latch is low, so that driving the line means driving it low.
\<close>

definition GPIO_PULL_UP :: u32 where
  "GPIO_PULL_UP = 1"

definition mp_hal_pin_input :: "nat \<Rightarrow> samd \<Rightarrow> samd" where
  "mp_hal_pin_input pin s =
     open_drain_flag_update pin False (s\<lparr>PORT_DIR := (PORT_DIR s)(pin := False)\<rparr>)"

definition mp_hal_pin_output :: "nat \<Rightarrow> samd \<Rightarrow> samd" where
  "mp_hal_pin_output pin s =
     open_drain_flag_update pin False (s\<lparr>PORT_DIR := (PORT_DIR s)(pin := True)\<rparr>)"

definition mp_hal_pin_open_drain :: "nat \<Rightarrow> samd \<Rightarrow> samd" where
  "mp_hal_pin_open_drain pin s =
     open_drain_flag_update pin True
       (s\<lparr>PORT_DIR := (PORT_DIR s)(pin := False),
          PORT_PULL := (PORT_PULL s)(pin := GPIO_PULL_UP),
          PORT_OUT := (PORT_OUT s)(pin := False)\<rparr>)"

text \<open>
  Modelled from the spec: \<open>mp_hal_pin_od_low\<close> and \<open>mp_hal_pin_od_high\<close> are missing:
  ``pin-release/pin-assert semantics appropriate to simulated open-drain (drive low vs.
  release to pulled/floating high)''. Asserting drives the line low: the pin becomes an
  output and its latch is low. Releasing makes the pin an input, and the line takes the
  level its pull or the other side gives it.
\<close>

definition mp_hal_pin_od_low :: "nat \<Rightarrow> samd \<Rightarrow> samd" where
  "mp_hal_pin_od_low pin s =
     s\<lparr>PORT_DIR := (PORT_DIR s)(pin := True), PORT_OUT := (PORT_OUT s)(pin := False)\<rparr>"

definition mp_hal_pin_od_high :: "nat \<Rightarrow> samd \<Rightarrow> samd" where
  "mp_hal_pin_od_high pin s = s\<lparr>PORT_DIR := (PORT_DIR s)(pin := False)\<rparr>"

text \<open>
  Modelled from the spec: \<open>gpio_set_pin_pull_mode\<close> is missing, one of the
  ``drive-strength/pull-mode low-level register writes that are single-purpose
  passthroughs''. It stores the pull mode of the pin and, as the source's comment at
  the call says (``The function sets the pin to INPUT''), makes the pin an input.
\<close>

definition gpio_set_pin_pull_mode :: "nat \<Rightarrow> u32 \<Rightarrow> samd \<Rightarrow> samd" where
  "gpio_set_pin_pull_mode pin pull s =
     s\<lparr>PORT_DIR := (PORT_DIR s)(pin := False), PORT_PULL := (PORT_PULL s)(pin := pull)\<rparr>"

text \<open>
  Modelled from the spec: \<open>hri_port_write_PINCFG_DRVSTR_bit\<close> is missing, the other
  single-purpose passthrough: it writes the drive-strength bit of the pin
  (\<open>GPIO_PORT(id)\<close>, \<open>GPIO_PIN(id)\<close>: the bank and the bit of the pin \<open>id\<close>).
\<close>

definition hri_port_write_PINCFG_DRVSTR_bit :: "nat \<Rightarrow> bool \<Rightarrow> samd \<Rightarrow> samd" where
  "hri_port_write_PINCFG_DRVSTR_bit pin v s = s\<lparr>PORT_DRVSTR := (PORT_DRVSTR s)(pin := v)\<rparr>"

text \<open>Modelled from the spec: \<open>mp_hal_set_pin_mux(id, ALT_FCT_EIC)\<close> is missing. It
  routes the pin to the interrupt controller.\<close>

definition mp_hal_set_pin_mux_EIC :: "nat \<Rightarrow> samd \<Rightarrow> samd" where
  "mp_hal_set_pin_mux_EIC pin s = s\<lparr>PORT_PMUX_EIC := (PORT_PMUX_EIC s)(pin := True)\<rparr>"

subsection \<open>Drive strength\<close>

definition GPIO_STRENGTH_2MA :: int where
  "GPIO_STRENGTH_2MA = 0"

definition GPIO_STRENGTH_8MA :: int where
  "GPIO_STRENGTH_8MA = 1"

text \<open>
  \<open>bool strength = <int>;\<close> converts: zero is \<open>false\<close>, everything else \<open>true\<close>. In a
  comparison with an \<open>int\<close> the \<open>bool\<close> is promoted to 0 or 1.
\<close>

definition bool_of_int :: "int \<Rightarrow> bool" where
  "bool_of_int i = (i \<noteq> 0)"

definition int_of_bool :: "bool \<Rightarrow> int" where
  "int_of_bool b = (if b then 1 else 0)"

text \<open>
  \<open>STATIC void pin_validate_drive(bool strength)\<close>: raises when the argument differs
  from both levels.
\<close>

definition pin_validate_drive :: "bool \<Rightarrow> error + unit" where
  "pin_validate_drive strength =
     (if int_of_bool strength \<noteq> GPIO_STRENGTH_2MA \<and> int_of_bool strength \<noteq> GPIO_STRENGTH_8MA
      then Inl (ValueError ''invalid argument(s) value'')
      else Inr ())"

text \<open>
  \<open>machine_pin_drive(n_args, args)\<close>: \<open>args[0]\<close> is the pin; \<open>args[1]\<close>, when present
  (\<open>n_args = 2\<close>), is an integer object: \<open>None\<close> stands for the call with the pin alone.
\<close>

definition machine_pin_drive :: "nat \<Rightarrow> int option \<Rightarrow> samd \<Rightarrow> (error + unit) \<times> samd" where
  "machine_pin_drive self arg1 s =
     (case arg1 of
        None \<Rightarrow> (Inr (), s)
      | Some v \<Rightarrow>
          (let strength = bool_of_int v in
           case pin_validate_drive strength of
             Inl e \<Rightarrow> (Inl e, s)
           | Inr _ \<Rightarrow> (Inr (), hri_port_write_PINCFG_DRVSTR_bit self strength s)))"

subsection \<open>Init and toggle\<close>

definition GPIO_MODE_IN :: int where
  "GPIO_MODE_IN = 0"

definition GPIO_MODE_OUT :: int where
  "GPIO_MODE_OUT = 1"

definition GPIO_MODE_OPEN_DRAIN :: int where
  "GPIO_MODE_OPEN_DRAIN = 2"

text \<open>
  The arguments of \<open>Pin.init(mode, pull=None, *, value=None, drive=0)\<close> after
  \<open>mp_arg_parse_all\<close>: \<open>None\<close> is \<open>mp_const_none\<close>, \<open>mode\<close> and \<open>pull\<close> are integer
  objects otherwise, \<open>value\<close> is the truth value of the object given.
\<close>

record init_args =
  arg_mode :: "int option"
  arg_pull :: "int option"
  arg_value :: "bool option"
  arg_drive :: int

text \<open>``set initial value (do this before configuring mode/pull)''\<close>

definition init_set_value :: "nat \<Rightarrow> init_args \<Rightarrow> samd \<Rightarrow> samd" where
  "init_set_value self a s =
     (case arg_value a of None \<Rightarrow> s | Some v \<Rightarrow> mp_hal_pin_write self v s)"

text \<open>``configure mode''\<close>

definition init_set_mode :: "nat \<Rightarrow> init_args \<Rightarrow> samd \<Rightarrow> samd" where
  "init_set_mode self a s =
     (case arg_mode a of
        None \<Rightarrow> s
      | Some mode \<Rightarrow>
          if mode = GPIO_MODE_IN then mp_hal_pin_input self s
          else if mode = GPIO_MODE_OUT then mp_hal_pin_output self s
          else if mode = GPIO_MODE_OPEN_DRAIN then mp_hal_pin_open_drain self s
          else mp_hal_pin_input self s)"

text \<open>
  \<open>machine_pin_obj_init_helper\<close>: the value, the mode, then the pull (refused on an
  output), then the drive strength, which is converted and validated and nothing more.
\<close>

definition machine_pin_obj_init_helper ::
  "nat \<Rightarrow> init_args \<Rightarrow> samd \<Rightarrow> (error + unit) \<times> samd" where
  "machine_pin_obj_init_helper self a s =
     (let s1 = init_set_value self a s;
          s2 = init_set_mode self a s1;
          dir = mp_hal_get_pin_direction s2 self
      in if dir = GPIO_DIRECTION_OUT \<and> arg_pull a \<noteq> None
         then (Inl (ValueError ''OUT incompatible with pull''), s2)
         else
           (let s3 = (case arg_pull a of
                        None \<Rightarrow> s2
                      | Some pull \<Rightarrow> gpio_set_pin_pull_mode self (word_of_int pull) s2);
                strength = bool_of_int (arg_drive a)
            in case pin_validate_drive strength of
                 Inl e \<Rightarrow> (Inl e, s3)
               | Inr _ \<Rightarrow> (Inr (), s3)))"

text \<open>\<open>machine_pin_toggle\<close>: ``Only TOGGLE pins set as OUTPUT.''\<close>

definition machine_pin_toggle :: "nat \<Rightarrow> samd \<Rightarrow> samd" where
  "machine_pin_toggle self s =
     (if GPIO_IS_OPEN_DRAIN s self
      then (let pin_dir = (mp_hal_get_pin_direction s self \<noteq> 0) in
            if pin_dir then mp_hal_pin_od_high self s else mp_hal_pin_od_low self s)
      else gpio_toggle_pin_level self s)"

subsection \<open>Requesting an interrupt\<close>

text \<open>
  The arguments of \<open>pin.irq(handler=None, trigger=IRQ_FALLING|IRQ_RISING, hard=False)\<close>:
  \<open>n_args\<close> counts the positional arguments, the pin included, \<open>kw_used\<close> the keyword
  arguments, and the three values are what \<open>mp_arg_parse_all\<close> returns (the default
  where the caller gave none).
\<close>

record irq_args =
  n_args :: nat
  kw_used :: nat
  arg_handler :: mp_obj_t
  arg_trigger :: u32
  arg_hard :: bool

text \<open>\<open>irq_num\<close>: 4 on the SAMD21, \<open>eic_id + 12\<close> on the SAMD51.\<close>

definition irq_num :: "mcu \<Rightarrow> nat \<Rightarrow> nat" where
  "irq_num m eic_id = (case m of MCU_SAMD21 \<Rightarrow> 4 | MCU_SAMD51 \<Rightarrow> eic_id + 12)"

text \<open>
  The first half of ``Configure IRQ'', the same on both targets but for the names of
  the registers: mask the interrupt at the NVIC, disable the EIC and wait, disable the
  line, enable the clocks.
\<close>

definition irq_disable_EIC :: "mcu \<Rightarrow> nat \<Rightarrow> samd \<Rightarrow> samd option" where
  "irq_disable_EIC m eic_id s =
     (case EIC_wait_sync ((NVIC_DisableIRQ (irq_num m eic_id) s)\<lparr>EIC_ENABLE := False\<rparr>) of
        None \<Rightarrow> None
      | Some s1 \<Rightarrow>
          Some ((EIC_INTENCLR_write (push_bit eic_id 1) s1)
                  \<lparr>CLK_APB_EIC := True, CLK_GCLK_EIC := True\<rparr>))"

text \<open>``Update IRQ data.''\<close>

definition irq_update_data :: "nat \<Rightarrow> irq_args \<Rightarrow> machine_pin_irq_obj_t \<Rightarrow> machine_pin_irq_obj_t" where
  "irq_update_data self a irq =
     irq\<lparr>handler := arg_handler a, ishard := arg_hard a, flags := 0,
         trigger := arg_trigger a, pin_id := of_nat self\<rparr>"

text \<open>``Enable IRQ if a handler is given.''\<close>

definition irq_arm :: "nat \<Rightarrow> u32 \<Rightarrow> samd \<Rightarrow> samd" where
  "irq_arm eic_id trig s =
     (let s1 = s\<lparr>EIC_CONFIG := (EIC_CONFIG s)
                  [eic_id div 8 := (EIC_CONFIG s ! (eic_id div 8)) OR push_bit ((eic_id mod 8) * 4) trig]\<rparr>;
          s2 = EIC_INTENSET_write (push_bit eic_id 1) s1
      in EIC_INTFLAG_write (EIC_INTFLAG_read s2 OR push_bit eic_id 1) s2)"

text \<open>``Enable EIC (again)'' and ``Enable interrupt again''\<close>

definition irq_enable_EIC :: "mcu \<Rightarrow> nat \<Rightarrow> samd \<Rightarrow> samd option" where
  "irq_enable_EIC m eic_id s =
     (case EIC_wait_sync (s\<lparr>EIC_ENABLE := True\<rparr>) of
        None \<Rightarrow> None
      | Some s1 \<Rightarrow> Some (NVIC_EnableIRQ (irq_num m eic_id) s1))"

text \<open>
  ``(Re-)configure the irq'': the body of \<open>if (n_args > 1 || kw_args->used != 0)\<close>, with
  \<open>irq\<close> the record in slot \<open>eic_id\<close>.
\<close>

definition irq_configure :: "mcu \<Rightarrow> nat \<Rightarrow> irq_args \<Rightarrow> nat \<Rightarrow> samd \<Rightarrow> samd option" where
  "irq_configure m self a eic_id s =
     (case irq_disable_EIC m eic_id (mp_hal_set_pin_mux_EIC self s) of
        None \<Rightarrow> None
      | Some s1 \<Rightarrow>
          (let s2 = EIC_INTENCLR_write (push_bit eic_id 1) s1;
               s3 = s2\<lparr>machine_pin_irq_objects := (machine_pin_irq_objects s2)
                         [eic_id := map_option (irq_update_data self a)
                                      (machine_pin_irq_objects s2 ! eic_id)]\<rparr>;
               s4 = (if arg_handler a \<noteq> mp_const_none
                     then irq_arm eic_id (arg_trigger a) s3 else s3)
           in irq_enable_EIC m eic_id s4))"

text \<open>
  ``Allocate the IRQ object if it doesn't already exist.'' \<open>new_obj\<close> is what
  \<open>m_new_obj\<close> gives when it is called: \<open>None\<close> when it raises for want of memory, else
  the storage, whose \<open>flags\<close> and \<open>trigger\<close> the function does not initialise.
\<close>

definition irq_allocate ::
  "machine_pin_irq_obj_t option \<Rightarrow> nat \<Rightarrow> nat \<Rightarrow> samd \<Rightarrow> error + samd" where
  "irq_allocate new_obj self eic_id s =
     (case machine_pin_irq_objects s ! eic_id of
        Some irq \<Rightarrow> Inr s
      | None \<Rightarrow>
          (case new_obj of
             None \<Rightarrow> Inl MemoryError
           | Some mem \<Rightarrow>
               Inr (s\<lparr>machine_pin_irq_objects := (machine_pin_irq_objects s)
                        [eic_id := Some (mem\<lparr>handler := mp_const_none, ishard := False,
                                               parent := self, pin_id := 0xff\<rparr>)]\<rparr>)))"

text \<open>
  \<open>machine_pin_irq\<close>. \<open>eic_of\<close> is the pin table's \<open>get_pin_af_info(id)->eic\<close>, a
  line below 16 for a pin that has one (the source indexes the array of records with it
  as it comes). The test \<open>irq != NULL && irq->pin_id != self->id\<close> compares the byte
  stored in the record with the id of the pin. The result is the slot of the record
  returned. \<open>None\<close> is the call that does not return (a synchronisation that never
  completes).
\<close>

definition machine_pin_irq ::
  "mcu \<Rightarrow> (nat \<Rightarrow> u8) \<Rightarrow> machine_pin_irq_obj_t option \<Rightarrow> nat \<Rightarrow> irq_args \<Rightarrow> samd
     \<Rightarrow> ((error + nat) \<times> samd) option" where
  "machine_pin_irq m eic_of new_obj self a s =
     (let eic_id = unat (eic_of self) in
      if (case machine_pin_irq_objects s ! eic_id of
            None \<Rightarrow> False
          | Some irq \<Rightarrow> unat (pin_id irq) \<noteq> self)
      then Some (Inl (ValueError ''IRQ already used''), s)
      else
        (case irq_allocate new_obj self eic_id s of
           Inl e \<Rightarrow> Some (Inl e, s)
         | Inr s1 \<Rightarrow>
             if n_args a > 1 \<or> kw_used a \<noteq> 0
             then map_option (Pair (Inr eic_id)) (irq_configure m self a eic_id s1)
             else Some (Inr eic_id, s1)))"

subsection \<open>Teardown\<close>

definition pin_irq_deinit_all :: "mcu \<Rightarrow> samd \<Rightarrow> samd" where
  "pin_irq_deinit_all m s =
     (let s1 = EIC_INTENCLR_write 0xffff s;
          s2 = s1\<lparr>machine_pin_irq_objects :=
                    fold (\<lambda>i objs. objs[i := None]) [0..<16] (machine_pin_irq_objects s1)\<rparr>
      in case m of
           MCU_SAMD21 \<Rightarrow> NVIC_DisableIRQ 4 s2
         | MCU_SAMD51 \<Rightarrow> fold NVIC_DisableIRQ [12..<20] s2)"

subsection \<open>Dispatch\<close>

text \<open>
  Modelled from the spec: \<open>mp_irq_handler\<close> of the runtime is missing. ``This core's
  responsibility ends at invoking the handler reference'': the call is recorded with
  the line of the record it is given, and what the handler then does is not modelled.
\<close>

definition mp_irq_handler :: "nat \<Rightarrow> samd \<Rightarrow> samd" where
  "mp_irq_handler eic_id s = s\<lparr>irq_calls := irq_calls s @ [eic_id]\<rparr>"

text \<open>\<open>irq->flags = irq->trigger;\<close> on the record in a slot.\<close>

definition irq_latch :: "nat \<Rightarrow> machine_pin_irq_obj_t \<Rightarrow> samd \<Rightarrow> samd" where
  "irq_latch eic_id irq s =
     s\<lparr>machine_pin_irq_objects :=
         (machine_pin_irq_objects s)[eic_id := Some (irq\<lparr>flags := trigger irq\<rparr>)]\<rparr>"

text \<open>\<open>EIC->INTFLAG.reg |= mask; // clear the ISR flag\<close>\<close>

definition EIC_clear_flag :: "u32 \<Rightarrow> samd \<Rightarrow> samd" where
  "EIC_clear_flag msk s = EIC_INTFLAG_write (EIC_INTFLAG_read s OR msk) s"

text \<open>
  The loop of \<open>EIC_Handler\<close>, from \<open>eic_id\<close> on, with \<open>msk\<close> for the source's
  \<open>mask\<close>; \<open>isr\<close> is the snapshot of the pending flags. The \<open>break\<close> is inside
  \<open>if (irq != NULL)\<close>.
\<close>

function EIC_Handler_loop :: "u32 \<Rightarrow> nat \<Rightarrow> u32 \<Rightarrow> samd \<Rightarrow> samd" where
  "EIC_Handler_loop isr eic_id msk s =
     (if eic_id < 16
      then if isr AND msk \<noteq> 0
           then (case machine_pin_irq_objects (EIC_clear_flag msk s) ! eic_id of
                   Some irq \<Rightarrow> mp_irq_handler eic_id (irq_latch eic_id irq (EIC_clear_flag msk s))
                 | None \<Rightarrow> EIC_Handler_loop isr (eic_id + 1) (push_bit 1 msk) (EIC_clear_flag msk s))
           else EIC_Handler_loop isr (eic_id + 1) (push_bit 1 msk) s
      else s)"
  by pat_completeness auto
termination
  by (relation "measure (\<lambda>(isr, eic_id, msk, s). 16 - eic_id)") auto

declare EIC_Handler_loop.simps [simp del]

definition EIC_Handler :: "samd \<Rightarrow> samd" where
  "EIC_Handler s = EIC_Handler_loop (EIC_INTFLAG_read s) 0 1 s"

subsection \<open>The methods of an interrupt record\<close>

text \<open>
  \<open>find_eic_id(int pin)\<close>: the first slot whose record is bound to the pin, else
  \<open>0xff\<close>.
\<close>

function find_eic_id_loop :: "samd \<Rightarrow> nat \<Rightarrow> nat \<Rightarrow> u8" where
  "find_eic_id_loop s pin eic_id =
     (if eic_id < 16
      then (case machine_pin_irq_objects s ! eic_id of
              Some irq \<Rightarrow>
                if unat (pin_id irq) = pin then of_nat eic_id
                else find_eic_id_loop s pin (eic_id + 1)
            | None \<Rightarrow> find_eic_id_loop s pin (eic_id + 1))
      else 0xff)"
  by pat_completeness auto
termination
  by (relation "measure (\<lambda>(s, pin, eic_id). 16 - eic_id)") auto

declare find_eic_id_loop.simps [simp del]

definition find_eic_id :: "samd \<Rightarrow> nat \<Rightarrow> u8" where
  "find_eic_id s pin = find_eic_id_loop s pin 0"

text \<open>
  \<open>machine_pin_irq_trigger\<close> in its three steps: \<open>EIC->INTENCLR.reg |= (1 << eic_id)\<close>,
  the update of the record, \<open>EIC->INTENSET.reg |= (1 << eic_id)\<close>.
\<close>

definition irq_trigger_mask :: "nat \<Rightarrow> samd \<Rightarrow> samd" where
  "irq_trigger_mask eic_id s = EIC_INTENCLR_write (EIC_INTENCLR_read s OR push_bit eic_id 1) s"

definition irq_trigger_update :: "nat \<Rightarrow> u32 \<Rightarrow> samd \<Rightarrow> samd" where
  "irq_trigger_update eic_id new_trigger s =
     s\<lparr>machine_pin_irq_objects := (machine_pin_irq_objects s)
         [eic_id := map_option (\<lambda>irq. irq\<lparr>flags := 0, trigger := new_trigger\<rparr>)
                      (machine_pin_irq_objects s ! eic_id)]\<rparr>"

definition irq_trigger_unmask :: "nat \<Rightarrow> samd \<Rightarrow> samd" where
  "irq_trigger_unmask eic_id s = EIC_INTENSET_write (EIC_INTENSET_read s OR push_bit eic_id 1) s"

definition machine_pin_irq_trigger :: "nat \<Rightarrow> u32 \<Rightarrow> samd \<Rightarrow> samd" where
  "machine_pin_irq_trigger self new_trigger s =
     (let eic_id = find_eic_id s self in
      if eic_id \<noteq> 0xff
      then irq_trigger_unmask (unat eic_id)
             (irq_trigger_update (unat eic_id) new_trigger (irq_trigger_mask (unat eic_id) s))
      else s)"

text \<open>
  The two kinds of information, in the order of the runtime's enumeration; any other
  kind gives 0. The slot that \<open>find_eic_id\<close> returns holds a record.
\<close>

definition MP_IRQ_INFO_FLAGS :: u32 where
  "MP_IRQ_INFO_FLAGS = 0"

definition MP_IRQ_INFO_TRIGGERS :: u32 where
  "MP_IRQ_INFO_TRIGGERS = 1"

definition machine_pin_irq_info :: "samd \<Rightarrow> nat \<Rightarrow> u32 \<Rightarrow> u32" where
  "machine_pin_irq_info s self info_type =
     (let eic_id = find_eic_id s self in
      if eic_id \<noteq> 0xff
      then (case machine_pin_irq_objects s ! unat eic_id of
              Some irq \<Rightarrow>
                if info_type = MP_IRQ_INFO_FLAGS then flags irq
                else if info_type = MP_IRQ_INFO_TRIGGERS then trigger irq
                else 0
            | None \<Rightarrow> 0)
      else 0)"

subsection \<open>States used as examples\<close>

text \<open>
  After reset: no record, no pin configured, nothing pending. Every pin is an input, the
  synchronisation completes at once.
\<close>

definition power_on :: samd where
  "power_on =
     \<lparr>machine_pin_open_drain_mask = replicate 4 0,
      machine_pin_irq_objects = replicate 16 None,
      PORT_DIR = (\<lambda>_. False), PORT_OUT = (\<lambda>_. False), PORT_IN = (\<lambda>_. False),
      PORT_PULL = (\<lambda>_. 0), PORT_DRVSTR = (\<lambda>_. False), PORT_PMUX_EIC = (\<lambda>_. False),
      EIC_ENABLE = False, EIC_INTEN = 0, EIC_INTFLAG = 0, EIC_CONFIG = replicate 2 0,
      EIC_SYNC = Some 0, CLK_APB_EIC = False, CLK_GCLK_EIC = False,
      NVIC_enabled = {}, irq_calls = []\<rparr>"

text \<open>A record bound to a pin, with a handler, triggering on both edges.\<close>

definition irq_bound :: "nat \<Rightarrow> machine_pin_irq_obj_t" where
  "irq_bound pin =
     \<lparr>handler = mp_callable 0, ishard = False, parent = pin, flags = 0, trigger = 3,
      pin_id = of_nat pin\<rparr>"

text \<open>Lines 2 and 5 pending, both with a record.\<close>

definition pending_2_5_both :: samd where
  "pending_2_5_both =
     power_on\<lparr>EIC_INTFLAG := 0x24,
              machine_pin_irq_objects :=
                (replicate 16 None)[2 := Some (irq_bound 2), 5 := Some (irq_bound 5)]\<rparr>"

text \<open>Lines 2 and 5 pending, a record on line 5 only.\<close>

definition pending_2_5_orphan :: samd where
  "pending_2_5_orphan =
     power_on\<lparr>EIC_INTFLAG := 0x24,
              machine_pin_irq_objects := (replicate 16 None)[5 := Some (irq_bound 5)]\<rparr>"

text \<open>Lines 0 and 3 pending, a record on line 3 only.\<close>

definition pending_0_3_orphan :: samd where
  "pending_0_3_orphan =
     power_on\<lparr>EIC_INTFLAG := 0x09,
              machine_pin_irq_objects := (replicate 16 None)[3 := Some (irq_bound 3)]\<rparr>"

text \<open>Lines 3 and 5 pending, a record on line 5 only.\<close>

definition pending_3_5_orphan :: samd where
  "pending_3_5_orphan =
     power_on\<lparr>EIC_INTFLAG := 0x28,
              machine_pin_irq_objects := (replicate 16 None)[5 := Some (irq_bound 5)]\<rparr>"

text \<open>Pin 7 as a push-pull output, after reset.\<close>

definition push_pull_7 :: samd where
  "push_pull_7 = mp_hal_pin_output 7 power_on"





text \<open>\<open>init(mode=Pin.OUT, pull=Pin.PULL_UP)\<close>, \<open>init(pull=Pin.PULL_UP)\<close> and
  \<open>init(Pin.IN, Pin.PULL_UP, value=1, drive=1)\<close>.\<close>

definition init_out_pull_up :: init_args where
  "init_out_pull_up = \<lparr>arg_mode = Some 1, arg_pull = Some 1, arg_value = None, arg_drive = 0\<rparr>"

definition init_pull_up :: init_args where
  "init_pull_up = \<lparr>arg_mode = None, arg_pull = Some 1, arg_value = None, arg_drive = 0\<rparr>"

definition init_in_drive_1 :: init_args where
  "init_in_drive_1 =
     \<lparr>arg_mode = Some 0, arg_pull = Some 1, arg_value = Some True, arg_drive = 1\<rparr>"

text \<open>
  A pin table in which pin \<open>n\<close> is wired to line \<open>n mod 16\<close>: pins 2 and 18 share
  line 2.
\<close>

definition eic_mod16 :: "nat \<Rightarrow> u8" where
  "eic_mod16 pin = of_nat (pin mod 16)"

text \<open>\<open>pin.irq()\<close> and \<open>pin.irq(handler=f, trigger=Pin.IRQ_RISING)\<close>.\<close>

definition bare_irq :: irq_args where
  "bare_irq =
     \<lparr>n_args = 1, kw_used = 0, arg_handler = mp_const_none, arg_trigger = 3, arg_hard = False\<rparr>"

definition irq_rising :: irq_args where
  "irq_rising =
     \<lparr>n_args = 1, kw_used = 2, arg_handler = mp_callable 1, arg_trigger = 1, arg_hard = False\<rparr>"

text \<open>Line 2 bound to pin 2.\<close>

definition line_2_owned :: samd where
  "line_2_owned =
     power_on\<lparr>machine_pin_irq_objects := (replicate 16 None)[2 := Some (irq_bound 2)]\<rparr>"

text \<open>Line 2 with the record that \<open>pin.irq()\<close> of pin 2 leaves, in storage that held
  \<open>irq_bound 0\<close>.\<close>

definition line_2_unbound :: samd where
  "line_2_unbound =
     power_on\<lparr>machine_pin_irq_objects :=
       (replicate 16 None)
         [2 := Some ((irq_bound 0)\<lparr>handler := mp_const_none, ishard := False, parent := 2,
                                   pin_id := 0xff\<rparr>)]\<rparr>"

section \<open>Drive strength\<close>

text \<open>
  The parameter of \<open>pin_validate_drive\<close> is a \<open>bool\<close>: whatever integer the caller gave
  has become 0 or 1 before the comparison, and the test cannot fail.
\<close>

lemma pin_validate_drive_never_raises: "pin_validate_drive strength = Inr ()"
  by (cases strength)
     (simp_all add: pin_validate_drive_def int_of_bool_def GPIO_STRENGTH_2MA_def
        GPIO_STRENGTH_8MA_def)

lemma machine_pin_drive_any:
  "machine_pin_drive self (Some v) s =
     (Inr (), s\<lparr>PORT_DRVSTR := (PORT_DRVSTR s)(self := (v \<noteq> 0))\<rparr>)"
  by (simp add: machine_pin_drive_def pin_validate_drive_never_raises bool_of_int_def
        hri_port_write_PINCFG_DRVSTR_bit_def)

text \<open>
  C5 says that a drive strength other than 0 and 1 is refused with an invalid-argument
  error and that the drive-strength register is not written. The code does otherwise:
  \<open>Pin.drive(5)\<close> on pin 7 after reset returns normally and has set the drive-strength
  bit of the pin.
\<close>

theorem machine_pin_drive_5_is_accepted:
  "fst (machine_pin_drive 7 (Some 5) power_on) = Inr () \<and>
   \<not> PORT_DRVSTR power_on 7 \<and>
   PORT_DRVSTR (snd (machine_pin_drive 7 (Some 5) power_on)) 7"
  by (simp add: machine_pin_drive_any) (simp add: power_on_def)

lemma init_steps_DRVSTR [simp]:
  "PORT_DRVSTR (init_set_value self a s) = PORT_DRVSTR s"
  "PORT_DRVSTR (init_set_mode self a s) = PORT_DRVSTR s"
  "PORT_DRVSTR (gpio_set_pin_pull_mode self p s) = PORT_DRVSTR s"
  by (simp_all add: init_set_value_def init_set_mode_def mp_hal_pin_write_def
        mp_hal_pin_input_def mp_hal_pin_output_def mp_hal_pin_open_drain_def
        open_drain_flag_update_def gpio_set_pin_pull_mode_def Let_def split: option.split)

text \<open>
  C10: init converts and validates its drive argument and never writes the
  drive-strength register: whatever the arguments and whether the call returns or
  raises, the register is afterwards what it was. The register is written by
  \<open>machine_pin_drive\<close>, which sets the pin's bit to the truth value of its argument.
\<close>

theorem machine_pin_init_keeps_DRVSTR:
  "PORT_DRVSTR (snd (machine_pin_obj_init_helper self a s)) = PORT_DRVSTR s \<and>
   PORT_DRVSTR (snd (machine_pin_drive self (Some v) s)) = (PORT_DRVSTR s)(self := (v \<noteq> 0))"
  by (simp add: machine_pin_obj_init_helper_def machine_pin_drive_any Let_def
        pin_validate_drive_never_raises split: option.split)

theorem machine_pin_init_keeps_DRVSTR_witness:
  "fst (machine_pin_obj_init_helper 7 init_in_drive_1 power_on) = Inr () \<and>
   \<not> PORT_DRVSTR (snd (machine_pin_obj_init_helper 7 init_in_drive_1 power_on)) 7 \<and>
   PORT_DRVSTR (snd (machine_pin_drive 7 (Some 1) power_on)) 7"
proof -
  have "fst (machine_pin_obj_init_helper 7 init_in_drive_1 power_on) = Inr ()"
    by code_simp
  with machine_pin_init_keeps_DRVSTR [of 7 init_in_drive_1 power_on 1]
  show ?thesis by (simp add: power_on_def)
qed

section \<open>Init: a pull on an output\<close>

lemma dir_query_out [simp]:
  "(mp_hal_get_pin_direction s pin = GPIO_DIRECTION_OUT) = PORT_DIR s pin"
  "(mp_hal_get_pin_direction s pin \<noteq> 0) = PORT_DIR s pin"
  by (simp_all add: mp_hal_get_pin_direction_def GPIO_DIRECTION_OUT_def)

lemma GPIO_IS_OPEN_DRAIN_dir [simp]:
  "GPIO_IS_OPEN_DRAIN (s\<lparr>PORT_DIR := d\<rparr>) pin = GPIO_IS_OPEN_DRAIN s pin"
  "GPIO_IS_OPEN_DRAIN (s\<lparr>PORT_OUT := v\<rparr>) pin = GPIO_IS_OPEN_DRAIN s pin"
  by (simp_all add: GPIO_IS_OPEN_DRAIN_def)

lemma init_set_value_mode [simp]:
  "PORT_DIR (init_set_value self a s) = PORT_DIR s"
  "machine_pin_open_drain_mask (init_set_value self a s) = machine_pin_open_drain_mask s"
  "PORT_PULL (init_set_value self a s) = PORT_PULL s"
  by (simp_all add: init_set_value_def mp_hal_pin_write_def split: option.split)

text \<open>Clearing the open-drain flag of a pin that has none changes nothing.\<close>

lemma clear_clear_bit: "w AND b = 0 \<Longrightarrow> w AND NOT b = (w::u32)"
proof (rule bit_eqI)
  fix n
  assume z: "w AND b = 0"
  have "\<not> (bit w n \<and> bit b n)"
  proof
    assume "bit w n \<and> bit b n"
    then have "bit (w AND b) n" by (simp add: bit_and_iff)
    with z show False by simp
  qed
  then show "bit (w AND NOT b) n = bit w n"
    by (auto simp: bit_and_iff bit_not_iff dest: bit_imp_possible_bit)
qed

lemma open_drain_flag_update_fields [simp]:
  "PORT_DIR (open_drain_flag_update pin b s) = PORT_DIR s"
  "PORT_PULL (open_drain_flag_update pin b s) = PORT_PULL s"
  by (simp_all add: open_drain_flag_update_def Let_def)

lemma open_drain_flag_clear_idle:
  "\<not> GPIO_IS_OPEN_DRAIN s pin \<Longrightarrow>
   machine_pin_open_drain_mask (open_drain_flag_update pin False s) = machine_pin_open_drain_mask s"
  by (simp add: GPIO_IS_OPEN_DRAIN_def open_drain_flag_update_def Let_def clear_clear_bit)

lemma init_set_mode_on_output:
  assumes "PORT_DIR (init_set_mode self a s) self"
    and "arg_mode a = None \<or> PORT_DIR s self \<and> \<not> GPIO_IS_OPEN_DRAIN s self"
  shows "PORT_DIR (init_set_mode self a s) = PORT_DIR s \<and>
         machine_pin_open_drain_mask (init_set_mode self a s) = machine_pin_open_drain_mask s"
proof (cases "arg_mode a")
  case None
  then show ?thesis by (simp add: init_set_mode_def)
next
  case (Some mode)
  with assms(2) have out: "PORT_DIR s self" and pp: "\<not> GPIO_IS_OPEN_DRAIN s self" by simp_all
  have "mode = GPIO_MODE_OUT"
  proof (rule ccontr)
    assume "mode \<noteq> GPIO_MODE_OUT"
    with Some have "\<not> PORT_DIR (init_set_mode self a s) self"
      by (simp add: init_set_mode_def mp_hal_pin_input_def mp_hal_pin_open_drain_def)
    with assms(1) show False by simp
  qed
  with Some have m: "init_set_mode self a s = mp_hal_pin_output self s"
    by (simp add: init_set_mode_def GPIO_MODE_OUT_def GPIO_MODE_IN_def)
  have d: "(PORT_DIR s)(self := True) = PORT_DIR s"
    using out by (simp add: fun_upd_idem)
  have "\<not> GPIO_IS_OPEN_DRAIN (s\<lparr>PORT_DIR := (PORT_DIR s)(self := True)\<rparr>) self"
    using pp by simp
  then show ?thesis
    unfolding m mp_hal_pin_output_def by (simp add: open_drain_flag_clear_idle d)
qed

text \<open>
  C6, as amended: when the pin is an output at the moment the pull is checked, that is
  after the value and the mode of the same call have been applied, an init that asks
  for a pull raises the invalid-argument error. The raise changes nothing: the state
  after the call is the state at the check, so the pin is an output and its pull is what
  it was before the call. A call without a mode argument, and any call on a pin that was a
  push-pull output already, leaves the direction and the open-drain flags as they were
  before the call; otherwise the mode argument has been applied before the check and
  stays applied.
\<close>

theorem machine_pin_init_pull_on_output:
  assumes "arg_pull a \<noteq> None"
    and "mp_hal_get_pin_direction (init_set_mode self a (init_set_value self a s)) self =
           GPIO_DIRECTION_OUT"
  shows "machine_pin_obj_init_helper self a s =
           (Inl (ValueError ''OUT incompatible with pull''),
            init_set_mode self a (init_set_value self a s)) \<and>
         mp_hal_get_pin_direction (snd (machine_pin_obj_init_helper self a s)) self =
           GPIO_DIRECTION_OUT \<and>
         PORT_PULL (snd (machine_pin_obj_init_helper self a s)) self = PORT_PULL s self \<and>
         (arg_mode a = None \<or> PORT_DIR s self \<and> \<not> GPIO_IS_OPEN_DRAIN s self \<longrightarrow>
            PORT_DIR (snd (machine_pin_obj_init_helper self a s)) = PORT_DIR s \<and>
            machine_pin_open_drain_mask (snd (machine_pin_obj_init_helper self a s)) =
              machine_pin_open_drain_mask s)"
proof -
  let ?s1 = "init_set_value self a s"
  have eq: "machine_pin_obj_init_helper self a s =
           (Inl (ValueError ''OUT incompatible with pull''), init_set_mode self a ?s1)"
    using assms by (simp add: machine_pin_obj_init_helper_def Let_def del: dir_query_out)
  have out: "PORT_DIR (init_set_mode self a ?s1) self"
    using assms(2) by simp
  have pull: "PORT_PULL (init_set_mode self a ?s1) self = PORT_PULL s self"
    using out
    by (auto simp: init_set_mode_def mp_hal_pin_input_def mp_hal_pin_output_def
          mp_hal_pin_open_drain_def split: option.splits if_splits)
  have od: "GPIO_IS_OPEN_DRAIN ?s1 self = GPIO_IS_OPEN_DRAIN s self"
    by (simp add: GPIO_IS_OPEN_DRAIN_def)
  have mode: "arg_mode a = None \<or> PORT_DIR s self \<and> \<not> GPIO_IS_OPEN_DRAIN s self \<Longrightarrow>
      PORT_DIR (init_set_mode self a ?s1) = PORT_DIR s \<and>
      machine_pin_open_drain_mask (init_set_mode self a ?s1) = machine_pin_open_drain_mask s"
    using init_set_mode_on_output [OF out] od by simp
  from assms(2) pull mode show ?thesis
    unfolding eq by (simp del: dir_query_out)
qed

theorem machine_pin_init_pull_on_output_witness:
  "machine_pin_obj_init_helper 7 init_pull_up push_pull_7 =
     (Inl (ValueError ''OUT incompatible with pull''), push_pull_7) \<and>
   mp_hal_get_pin_direction push_pull_7 7 = GPIO_DIRECTION_OUT"
proof -
  have s: "init_set_mode 7 init_pull_up (init_set_value 7 init_pull_up push_pull_7) = push_pull_7"
    by (simp add: init_set_mode_def init_set_value_def init_pull_up_def)
  have "arg_pull init_pull_up \<noteq> None"
    by (simp add: init_pull_up_def)
  moreover have "mp_hal_get_pin_direction
          (init_set_mode 7 init_pull_up (init_set_value 7 init_pull_up push_pull_7)) 7 =
        GPIO_DIRECTION_OUT"
    unfolding s by code_simp
  ultimately show ?thesis
    using machine_pin_init_pull_on_output [of init_pull_up 7 push_pull_7]
    by (simp add: s del: dir_query_out)
qed

text \<open>
  C6 as it is written fails where the call itself makes the pin an output: pin 7 is
  an input after reset; \<open>init(mode=Pin.OUT, pull=Pin.PULL_UP)\<close> finds it an output at
  the check, raises, and leaves it an output. The rejected call has changed the mode:
  the pin was not an output before it and is one after it.
\<close>

theorem machine_pin_init_pull_on_output_counterexample:
  "arg_pull init_out_pull_up \<noteq> None \<and>
   mp_hal_get_pin_direction
     (init_set_mode 7 init_out_pull_up (init_set_value 7 init_out_pull_up power_on)) 7 =
     GPIO_DIRECTION_OUT \<and>
   fst (machine_pin_obj_init_helper 7 init_out_pull_up power_on) =
     Inl (ValueError ''OUT incompatible with pull'') \<and>
   mp_hal_get_pin_direction power_on 7 \<noteq> GPIO_DIRECTION_OUT \<and>
   mp_hal_get_pin_direction (snd (machine_pin_obj_init_helper 7 init_out_pull_up power_on)) 7 =
     GPIO_DIRECTION_OUT"
proof -
  have "arg_pull init_out_pull_up \<noteq> None"
    by (simp add: init_out_pull_up_def)
  moreover have "mp_hal_get_pin_direction
     (init_set_mode 7 init_out_pull_up (init_set_value 7 init_out_pull_up power_on)) 7 =
     GPIO_DIRECTION_OUT"
    by code_simp
  moreover have "fst (machine_pin_obj_init_helper 7 init_out_pull_up power_on) =
     Inl (ValueError ''OUT incompatible with pull'')"
    by code_simp
  moreover have "mp_hal_get_pin_direction power_on 7 \<noteq> GPIO_DIRECTION_OUT"
    by code_simp
  moreover have "mp_hal_get_pin_direction
      (snd (machine_pin_obj_init_helper 7 init_out_pull_up power_on)) 7 = GPIO_DIRECTION_OUT"
    by code_simp
  ultimately show ?thesis by simp
qed

section \<open>Toggle\<close>


text \<open>
  An open-drain pin that is an output reads low after two toggles, whatever it read
  before: the second toggle asserts it.
\<close>

lemma machine_pin_toggle_twice_open_drain_low:
  assumes "mp_hal_get_pin_direction s self = GPIO_DIRECTION_OUT"
    and "GPIO_IS_OPEN_DRAIN s self"
  shows "\<not> mp_hal_pin_read (machine_pin_toggle self (machine_pin_toggle self s)) self"
proof -
  from assms(1) have out: "PORT_DIR s self" by simp
  with assms(2) have "machine_pin_toggle self s = mp_hal_pin_od_high self s"
    by (simp add: machine_pin_toggle_def)
  moreover have "GPIO_IS_OPEN_DRAIN (mp_hal_pin_od_high self s) self"
    using assms(2) by (simp add: mp_hal_pin_od_high_def)
  moreover have "\<not> PORT_DIR (mp_hal_pin_od_high self s) self"
    by (simp add: mp_hal_pin_od_high_def)
  ultimately have "machine_pin_toggle self (machine_pin_toggle self s) =
      mp_hal_pin_od_low self (mp_hal_pin_od_high self s)"
    by (simp add: machine_pin_toggle_def)
  then show ?thesis
    by (simp add: mp_hal_pin_od_low_def mp_hal_pin_read_def)
qed




section \<open>Requesting an interrupt\<close>

text \<open>The refusal comes first and changes nothing.\<close>

lemma irq_refused:
  assumes "machine_pin_irq_objects s ! unat (eic_of self) = Some irq"
    and "unat (pin_id irq) \<noteq> self"
  shows "machine_pin_irq m eic_of new_obj self a s = Some (Inl (ValueError ''IRQ already used''), s)"
  using assms by (simp add: machine_pin_irq_def Let_def)

text \<open>
  C1: when the line of pin B has a record bound to another pin A, a request for B,
  whatever its arguments, raises ``IRQ already used'' and returns the state as it was:
  the record of A, with its pin, handler, trigger, flags and mode, is untouched.
\<close>

theorem machine_pin_irq_conflict:
  assumes "length (machine_pin_irq_objects s) = 16" and "unat (eic_of pin_b) < 16"
    and "machine_pin_irq_objects s ! unat (eic_of pin_b) = Some irq"
    and "pin_a < 256" and "pin_id irq = of_nat pin_a" and "pin_a \<noteq> pin_b"
  shows "machine_pin_irq m eic_of new_obj pin_b a s =
           Some (Inl (ValueError ''IRQ already used''), s)"
proof -
  have "unat (pin_id irq) = pin_a"
    using assms(4,5) by (simp add: unat_of_nat)
  with assms(6) have "unat (pin_id irq) \<noteq> pin_b" by simp
  with assms(3) show ?thesis by (rule irq_refused)
qed

theorem machine_pin_irq_conflict_witness:
  "machine_pin_irq MCU_SAMD21 eic_mod16 None 18 irq_rising line_2_owned =
     Some (Inl (ValueError ''IRQ already used''), line_2_owned) \<and>
   machine_pin_irq_objects line_2_owned ! 2 = Some (irq_bound 2)"
proof -
  have e: "unat (eic_mod16 18) = 2" by (simp add: eic_mod16_def)
  have "length (machine_pin_irq_objects line_2_owned) = 16"
    and "unat (eic_mod16 18) < 16"
    and "machine_pin_irq_objects line_2_owned ! unat (eic_mod16 18) = Some (irq_bound 2)"
    and "(2::nat) < 256" and "pin_id (irq_bound 2) = of_nat 2" and "(2::nat) \<noteq> 18"
    by (simp_all add: e) (simp_all add: line_2_owned_def irq_bound_def)
  from machine_pin_irq_conflict
         [where s = line_2_owned and eic_of = eic_mod16 and pin_b = 18 and pin_a = 2, OF this]
  show ?thesis by (simp add: line_2_owned_def)
qed

text \<open>
  C4: \<open>pin.irq()\<close> without arguments on a line that has no record allocates one and
  leaves it unbound, its owner the sentinel \<open>0xff\<close>. From then on every request for
  that line, from the pin \<open>p\<close> that made the allocation as from any other pin \<open>q\<close> of
  the line, with any arguments, raises ``IRQ already used'' and changes nothing, so the
  next request meets the same record. No pin has the id 255: the table of the open-drain
  flags has 128 bits.
\<close>

theorem machine_pin_irq_unbound_record:
  assumes "length (machine_pin_irq_objects s) = 16" and "unat (eic_of p) < 16"
    and "machine_pin_irq_objects s ! unat (eic_of p) = None"
    and "n_args a0 = 1" and "kw_used a0 = 0"
    and "eic_of q = eic_of p" and "q \<noteq> 255"
  shows "\<exists>s1 irq.
           machine_pin_irq m eic_of (Some mem) p a0 s = Some (Inr (unat (eic_of p)), s1) \<and>
           machine_pin_irq_objects s1 ! unat (eic_of p) = Some irq \<and>
           pin_id irq = 0xff \<and> handler irq = mp_const_none \<and>
           machine_pin_irq m eic_of new_obj q a s1 =
             Some (Inl (ValueError ''IRQ already used''), s1)"
proof -
  let ?e = "unat (eic_of p)"
  let ?irq = "mem\<lparr>handler := mp_const_none, ishard := False, parent := p, pin_id := 0xff\<rparr>"
  let ?s1 = "s\<lparr>machine_pin_irq_objects := (machine_pin_irq_objects s)[?e := Some ?irq]\<rparr>"
  have call: "machine_pin_irq m eic_of (Some mem) p a0 s = Some (Inr ?e, ?s1)"
    using assms(3,4,5) by (simp add: machine_pin_irq_def irq_allocate_def Let_def)
  have slot: "machine_pin_irq_objects ?s1 ! unat (eic_of q) = Some ?irq"
    using assms(1,2,6) by simp
  have "unat (pin_id ?irq) \<noteq> q"
    using assms(7) by simp
  with slot have "machine_pin_irq m eic_of new_obj q a ?s1 =
             Some (Inl (ValueError ''IRQ already used''), ?s1)"
    by (rule irq_refused)
  with call slot assms(6) show ?thesis by auto
qed

theorem machine_pin_irq_unbound_record_witness:
  "machine_pin_irq MCU_SAMD21 eic_mod16 (Some (irq_bound 0)) 2 bare_irq power_on =
     Some (Inr 2, line_2_unbound) \<and>
   machine_pin_irq MCU_SAMD21 eic_mod16 None 2 irq_rising line_2_unbound =
     Some (Inl (ValueError ''IRQ already used''), line_2_unbound)"
proof -
  have e: "unat (eic_mod16 2) = 2" by (simp add: eic_mod16_def)
  have first: "machine_pin_irq MCU_SAMD21 eic_mod16 (Some (irq_bound 0)) 2 bare_irq power_on =
     Some (Inr 2, line_2_unbound)"
    by (simp add: machine_pin_irq_def irq_allocate_def e Let_def bare_irq_def
          line_2_unbound_def)
       (simp add: power_on_def)
  have "length (machine_pin_irq_objects power_on) = 16" and "unat (eic_mod16 2) < 16"
    and "machine_pin_irq_objects power_on ! unat (eic_mod16 2) = None"
    and "n_args bare_irq = 1" and "kw_used bare_irq = 0"
    and "eic_mod16 2 = eic_mod16 2" and "(2::nat) \<noteq> 255"
    by (simp_all add: e bare_irq_def) (simp_all add: power_on_def)
  from machine_pin_irq_unbound_record
         [where m = MCU_SAMD21 and mem = "irq_bound 0" and new_obj = None and a = irq_rising
            and s = power_on and eic_of = eic_mod16 and p = 2 and q = 2 and ?a0.0 = bare_irq,
          OF this]
  obtain s1 where
    "machine_pin_irq MCU_SAMD21 eic_mod16 (Some (irq_bound 0)) 2 bare_irq power_on =
       Some (Inr (unat (eic_mod16 2)), s1)"
    and "machine_pin_irq MCU_SAMD21 eic_mod16 None 2 irq_rising s1 =
       Some (Inl (ValueError ''IRQ already used''), s1)"
    by blast
  with first show ?thesis by simp
qed

text \<open>
  A request with arguments from the owner of the line goes through the configuration:
  pin 2 asks again, for the rising edge and with a new handler.
\<close>

lemma machine_pin_irq_rebinds:
  "map_option (\<lambda>(r, s). (r, machine_pin_irq_objects s ! 2, bit (EIC_INTEN s) 2, EIC_ENABLE s))
     (machine_pin_irq MCU_SAMD51 eic_mod16 None 2 irq_rising line_2_owned) =
   Some (Inr 2, Some ((irq_bound 2)\<lparr>handler := mp_callable 1, trigger := 1\<rparr>), True, True)"
  by code_simp

section \<open>The methods of a record, and the teardown\<close>

lemma find_loop_step:
  "k < 16 \<Longrightarrow> find_eic_id_loop s pin k =
     (case machine_pin_irq_objects s ! k of
        Some irq \<Rightarrow> if unat (pin_id irq) = pin then of_nat k else find_eic_id_loop s pin (Suc k)
      | None \<Rightarrow> find_eic_id_loop s pin (Suc k))"
  by (subst find_eic_id_loop.simps) (simp split: option.split)

lemma find_loop_end: "16 \<le> k \<Longrightarrow> find_eic_id_loop s pin k = 0xff"
  by (subst find_eic_id_loop.simps) simp

lemma find_loop_none:
  "(\<forall>j<16. machine_pin_irq_objects s ! j = None) \<Longrightarrow> find_eic_id_loop s pin k = 0xff"
proof (induction "16 - k" arbitrary: k)
  case 0
  then show ?case by (simp add: find_loop_end)
next
  case (Suc d)
  then have "k < 16" "machine_pin_irq_objects s ! k = None" by auto
  moreover have "find_eic_id_loop s pin (Suc k) = 0xff"
    using Suc by (intro Suc.hyps(1)) auto
  ultimately show ?case by (simp add: find_loop_step)
qed

lemma find_loop_skip:
  "k \<le> e \<Longrightarrow> e \<le> 16 \<Longrightarrow>
   (\<forall>j r. k \<le> j \<and> j < e \<and> machine_pin_irq_objects s ! j = Some r \<longrightarrow> unat (pin_id r) \<noteq> pin) \<Longrightarrow>
   find_eic_id_loop s pin k = find_eic_id_loop s pin e"
proof (induction "e - k" arbitrary: k)
  case 0
  then show ?case by simp
next
  case (Suc d)
  then have lt: "k < 16" and le: "Suc k \<le> e" by auto
  have "k < e" using Suc.hyps(2) by simp
  then have here: "\<And>r. machine_pin_irq_objects s ! k = Some r \<Longrightarrow> unat (pin_id r) \<noteq> pin"
    using Suc.prems(3) by blast
  have rest: "\<forall>j r. Suc k \<le> j \<and> j < e \<and> machine_pin_irq_objects s ! j = Some r
                 \<longrightarrow> unat (pin_id r) \<noteq> pin"
    using Suc.prems(3) Suc_leD by blast
  have "d = e - Suc k" using Suc.hyps(2) by simp
  then have "find_eic_id_loop s pin (Suc k) = find_eic_id_loop s pin e"
    using le Suc.prems(2) rest by (rule Suc.hyps(1))
  then show ?case
    using here by (simp add: find_loop_step[OF lt] split: option.split)
qed

lemma find_eic_id_owner:
  assumes "e < 16" and "machine_pin_irq_objects s ! e = Some irq" and "unat (pin_id irq) = self"
    and "\<forall>j<e. \<forall>r. machine_pin_irq_objects s ! j = Some r \<longrightarrow> unat (pin_id r) \<noteq> self"
  shows "find_eic_id s self = of_nat e"
proof -
  have "find_eic_id_loop s self 0 = find_eic_id_loop s self e"
    using assms(1,4) by (intro find_loop_skip) auto
  also have "\<dots> = of_nat e"
    using assms(1,2,3) by (simp add: find_loop_step)
  finally show ?thesis by (simp add: find_eic_id_def)
qed

lemma line_index_u8:
  assumes "e < 16"
  shows "(of_nat e :: u8) \<noteq> 0xff" and "unat (of_nat e :: u8) = e"
proof -
  show u: "unat (of_nat e :: u8) = e"
    using assms by (simp add: unat_of_nat)
  show "(of_nat e :: u8) \<noteq> 0xff"
  proof
    assume "(of_nat e :: u8) = 0xff"
    then have "unat (of_nat e :: u8) = unat (0xff :: u8)" by simp
    with u assms show False by simp
  qed
qed

text \<open>
  C7: for a pin that owns the record of line \<open>e\<close> (and, wired to one line, none of a
  lower line), \<open>machine_pin_irq_trigger\<close> disables the line, sets the trigger of that
  record and empties its flags, and enables the line: the line is masked before and
  after the update of the record and unmasked at the end; the handler, the mode and the
  owner of the record, and every other record, are as before.
\<close>

theorem machine_pin_irq_trigger_frame:
  assumes "length (machine_pin_irq_objects s) = 16" and "e < 16"
    and "machine_pin_irq_objects s ! e = Some irq" and "unat (pin_id irq) = self"
    and "\<forall>j<e. \<forall>r. machine_pin_irq_objects s ! j = Some r \<longrightarrow> unat (pin_id r) \<noteq> self"
  shows "machine_pin_irq_trigger self new_trigger s =
           irq_trigger_unmask e (irq_trigger_update e new_trigger (irq_trigger_mask e s)) \<and>
         \<not> bit (EIC_INTEN (irq_trigger_mask e s)) e \<and>
         \<not> bit (EIC_INTEN (irq_trigger_update e new_trigger (irq_trigger_mask e s))) e \<and>
         bit (EIC_INTEN (machine_pin_irq_trigger self new_trigger s)) e \<and>
         machine_pin_irq_objects (machine_pin_irq_trigger self new_trigger s) =
           (machine_pin_irq_objects s)[e := Some (irq\<lparr>flags := 0, trigger := new_trigger\<rparr>)]"
proof -
  have found: "find_eic_id s self = of_nat e"
    using assms(2-5) by (rule find_eic_id_owner)
  have eq: "machine_pin_irq_trigger self new_trigger s =
           irq_trigger_unmask e (irq_trigger_update e new_trigger (irq_trigger_mask e s))"
    using line_index_u8 [OF assms(2)] by (simp add: machine_pin_irq_trigger_def found)
  have masked: "\<not> bit (EIC_INTEN (irq_trigger_mask e s)) e"
    by (simp add: irq_trigger_mask_def EIC_INTENCLR_write_def EIC_INTENCLR_read_def
          bit_and_iff bit_not_iff bit_or_iff)
  have still: "\<not> bit (EIC_INTEN (irq_trigger_update e new_trigger (irq_trigger_mask e s))) e"
    using masked by (simp add: irq_trigger_update_def)
  have unmasked: "bit (EIC_INTEN (irq_trigger_unmask e
                        (irq_trigger_update e new_trigger (irq_trigger_mask e s)))) e"
    using assms(2)
    by (simp add: irq_trigger_unmask_def EIC_INTENSET_write_def EIC_INTENSET_read_def
          bit_or_iff bit_exp_iff)
  have objs: "machine_pin_irq_objects (irq_trigger_unmask e
                        (irq_trigger_update e new_trigger (irq_trigger_mask e s))) =
           (machine_pin_irq_objects s)[e := Some (irq\<lparr>flags := 0, trigger := new_trigger\<rparr>)]"
    using assms(3)
    by (simp add: irq_trigger_unmask_def EIC_INTENSET_write_def irq_trigger_update_def
          irq_trigger_mask_def EIC_INTENCLR_write_def)
  from masked still unmasked objs show ?thesis
    unfolding eq by simp
qed

theorem machine_pin_irq_trigger_frame_witness:
  "machine_pin_irq_objects (machine_pin_irq_trigger 2 1 line_2_owned) =
     (replicate 16 None)[2 := Some ((irq_bound 2)\<lparr>flags := 0, trigger := 1\<rparr>)] \<and>
   \<not> bit (EIC_INTEN (irq_trigger_mask 2 line_2_owned)) 2 \<and>
   bit (EIC_INTEN (machine_pin_irq_trigger 2 1 line_2_owned)) 2"
proof -
  have "length (machine_pin_irq_objects line_2_owned) = 16" and "(2::nat) < 16"
    and "machine_pin_irq_objects line_2_owned ! 2 = Some (irq_bound 2)"
    and "unat (pin_id (irq_bound 2)) = 2"
    and "\<forall>j<2. \<forall>r. machine_pin_irq_objects line_2_owned ! j = Some r \<longrightarrow> unat (pin_id r) \<noteq> 2"
    by (simp_all add: line_2_owned_def irq_bound_def less_2_cases_iff)
  note w = machine_pin_irq_trigger_frame [where new_trigger = 1, OF this]
  from w have "machine_pin_irq_objects (machine_pin_irq_trigger 2 1 line_2_owned) =
      (machine_pin_irq_objects line_2_owned)[2 := Some ((irq_bound 2)\<lparr>flags := 0, trigger := 1\<rparr>)]"
    by blast
  moreover from w have "\<not> bit (EIC_INTEN (irq_trigger_mask 2 line_2_owned)) 2"
    by blast
  moreover from w have "bit (EIC_INTEN (machine_pin_irq_trigger 2 1 line_2_owned)) 2"
    by blast
  ultimately show ?thesis by (simp add: line_2_owned_def)
qed

text \<open>
  The two read-modify-writes on the enable registers do more than the line: the first
  disables every line, the second enables this one only.
\<close>

lemma irq_trigger_leaves_one_line_enabled:
  "e < 32 \<Longrightarrow>
   EIC_INTEN (irq_trigger_unmask e (irq_trigger_update e t (irq_trigger_mask e s))) = 2 ^ e"
  by (auto simp: irq_trigger_unmask_def EIC_INTENSET_write_def EIC_INTENSET_read_def
        irq_trigger_update_def irq_trigger_mask_def EIC_INTENCLR_write_def EIC_INTENCLR_read_def
        bit_eq_iff bit_and_iff bit_or_iff bit_not_iff)

lemma deinit_clears_slots:
  "n \<le> length xs \<Longrightarrow>
   fold (\<lambda>i objs. objs[i := None]) [0..<n] xs = replicate n None @ drop n xs"
proof (induction n)
  case 0
  then show ?case by simp
next
  case (Suc n)
  then have "fold (\<lambda>i objs. objs[i := None]) [0..<Suc n] xs =
             (replicate n None @ drop n xs)[n := None]"
    by simp
  also have "\<dots> = replicate n None @ (drop n xs)[0 := None]"
    by (simp add: list_update_append)
  also have "(drop n xs)[0 := None] = None # drop (Suc n) xs"
    using Suc.prems by (simp add: Cons_nth_drop_Suc [symmetric])
  finally show ?case by (simp add: replicate_append_same)
qed

lemma fold_NVIC_DisableIRQ_objects [simp]:
  "machine_pin_irq_objects (fold NVIC_DisableIRQ ns s) = machine_pin_irq_objects s"
  by (induction ns arbitrary: s) (simp_all add: NVIC_DisableIRQ_def)

lemma pin_irq_deinit_all_objects:
  assumes "length (machine_pin_irq_objects s) = 16"
  shows "machine_pin_irq_objects (pin_irq_deinit_all m s) = replicate 16 None"
proof -
  have "fold (\<lambda>i objs. objs[i := None]) [0..<16] (machine_pin_irq_objects s) = replicate 16 None"
    using deinit_clears_slots [of 16 "machine_pin_irq_objects s"] assms by simp
  then show ?thesis
    by (cases m) (simp_all add: pin_irq_deinit_all_def EIC_INTENCLR_write_def NVIC_DisableIRQ_def)
qed

text \<open>
  C8: after \<open>pin_irq_deinit_all\<close>, on either target and from any state of the sixteen
  slots, the empty registry included, \<open>machine_pin_irq_info\<close> gives 0 for every pin and
  every kind of information; no slot holds a record and all sixteen lines are disabled.
  The teardown has no failing branch.
\<close>

theorem pin_irq_deinit_all_then_info:
  assumes "length (machine_pin_irq_objects s) = 16"
  shows "machine_pin_irq_info (pin_irq_deinit_all m s) self info_type = 0 \<and>
         machine_pin_irq_objects (pin_irq_deinit_all m s) = replicate 16 None \<and>
         EIC_INTEN (pin_irq_deinit_all m s) AND 0xffff = 0"
proof -
  have objs: "machine_pin_irq_objects (pin_irq_deinit_all m s) = replicate 16 None"
    using assms by (rule pin_irq_deinit_all_objects)
  then have "\<forall>j<16. machine_pin_irq_objects (pin_irq_deinit_all m s) ! j = None"
    by simp
  then have "find_eic_id (pin_irq_deinit_all m s) self = 0xff"
    unfolding find_eic_id_def by (rule find_loop_none)
  then have info: "machine_pin_irq_info (pin_irq_deinit_all m s) self info_type = 0"
    by (simp add: machine_pin_irq_info_def)
  have "EIC_INTEN (pin_irq_deinit_all m s) = EIC_INTEN s AND NOT 0xffff"
    by (cases m) (simp_all add: pin_irq_deinit_all_def EIC_INTENCLR_write_def NVIC_DisableIRQ_def Let_def)
  then have "EIC_INTEN (pin_irq_deinit_all m s) AND 0xffff = 0"
    by (simp add: and.assoc)
  with info objs show ?thesis by simp
qed

theorem pin_irq_deinit_all_then_info_witness:
  "machine_pin_irq_info (pin_irq_deinit_all MCU_SAMD51 power_on) 7 MP_IRQ_INFO_TRIGGERS = 0 \<and>
   machine_pin_irq_info (pin_irq_deinit_all MCU_SAMD21 line_2_owned) 2 MP_IRQ_INFO_FLAGS = 0 \<and>
   machine_pin_irq_info line_2_owned 2 MP_IRQ_INFO_TRIGGERS = 3 \<and>
   machine_pin_irq_objects (pin_irq_deinit_all MCU_SAMD51 power_on) = machine_pin_irq_objects power_on"
proof -
  have l1: "length (machine_pin_irq_objects power_on) = 16"
    by (simp add: power_on_def)
  have l2: "length (machine_pin_irq_objects line_2_owned) = 16"
    by (simp add: line_2_owned_def)
  have before: "machine_pin_irq_info line_2_owned 2 MP_IRQ_INFO_TRIGGERS = 3"
    by code_simp
  from pin_irq_deinit_all_then_info [OF l1, of MCU_SAMD51 7 MP_IRQ_INFO_TRIGGERS]
       pin_irq_deinit_all_then_info [OF l2, of MCU_SAMD21 2 MP_IRQ_INFO_FLAGS] before
  show ?thesis by (simp add: power_on_def)
qed

section \<open>Dispatch\<close>

lemma msk_test: "(isr AND 2 ^ k \<noteq> (0::u32)) = bit isr k"
  by (simp add: and_exp_eq_0_iff_not_bit)

lemma EIC_clear_flag_fields [simp]:
  "machine_pin_irq_objects (EIC_clear_flag m s) = machine_pin_irq_objects s"
  "irq_calls (EIC_clear_flag m s) = irq_calls s"
  by (simp_all add: EIC_clear_flag_def EIC_INTFLAG_write_def EIC_INTFLAG_read_def)

text \<open>
  The read-modify-write on the flag register writes back a one for every flag that is
  pending, not only for the line of \<open>msk\<close>: all pending flags are cleared.
\<close>

lemma EIC_clear_flag_clears_all [simp]: "EIC_INTFLAG (EIC_clear_flag msk s) = 0"
  by (simp add: EIC_clear_flag_def EIC_INTFLAG_write_def EIC_INTFLAG_read_def
        bit_eq_iff bit_and_iff bit_not_iff bit_or_iff)

text \<open>One turn of the loop, with the mask of line \<open>k\<close>.\<close>

lemma loop_step:
  "k < 16 \<Longrightarrow> EIC_Handler_loop isr k (2 ^ k) s =
     (if bit isr k
      then (case machine_pin_irq_objects s ! k of
              Some irq \<Rightarrow> mp_irq_handler k (irq_latch k irq (EIC_clear_flag (2 ^ k) s))
            | None \<Rightarrow> EIC_Handler_loop isr (Suc k) (2 ^ Suc k) (EIC_clear_flag (2 ^ k) s))
      else EIC_Handler_loop isr (Suc k) (2 ^ Suc k) s)"
  by (subst EIC_Handler_loop.simps)
     (simp add: msk_test push_bit_eq_mult mult.commute split: option.split)

lemma loop_end: "16 \<le> k \<Longrightarrow> EIC_Handler_loop isr k m s = s"
  by (subst EIC_Handler_loop.simps) simp

text \<open>Lines that are not pending are passed over.\<close>

lemma loop_skip:
  "k \<le> e \<Longrightarrow> e \<le> 16 \<Longrightarrow> (\<forall>j. k \<le> j \<and> j < e \<longrightarrow> \<not> bit isr j) \<Longrightarrow>
   EIC_Handler_loop isr k (2 ^ k) s = EIC_Handler_loop isr e (2 ^ e) s"
proof (induction "e - k" arbitrary: k)
  case 0
  then show ?case by simp
next
  case (Suc d)
  then have "k < 16" "\<not> bit isr k" "Suc k \<le> e" by auto
  moreover have "EIC_Handler_loop isr (Suc k) (2 ^ Suc k) s = EIC_Handler_loop isr e (2 ^ e) s"
    using Suc by (intro Suc.hyps(1)) auto
  ultimately show ?case by (simp only: loop_step if_False)
qed

text \<open>The loop never sets a pending flag.\<close>

lemma loop_INTFLAG_mono:
  "bit (EIC_INTFLAG (EIC_Handler_loop isr k m s)) n \<Longrightarrow> bit (EIC_INTFLAG s) n"
proof (induction isr k m s rule: EIC_Handler_loop.induct)
  case (1 isr eic_id msk s)
  show ?case
  proof (cases "eic_id < 16")
    case False
    with "1.prems" show ?thesis by (simp add: loop_end)
  next
    case lt: True
    show ?thesis
    proof (cases "isr AND msk \<noteq> 0")
      case False
      with lt "1.prems" "1.IH"(2) show ?thesis
        by (subst (asm) EIC_Handler_loop.simps) simp
    next
      case pend: True
      show ?thesis
      proof (cases "machine_pin_irq_objects (EIC_clear_flag msk s) ! eic_id")
        case None
        with lt pend "1.prems"
        have "bit (EIC_INTFLAG (EIC_Handler_loop isr (eic_id + 1) (push_bit 1 msk)
                                  (EIC_clear_flag msk s))) n"
          by (subst (asm) EIC_Handler_loop.simps) simp
        with "1.IH"(1)[OF lt pend None] have "bit (EIC_INTFLAG (EIC_clear_flag msk s)) n"
          by simp
        then show ?thesis by simp
      next
        case (Some irq)
        with lt pend "1.prems"
        have "bit (EIC_INTFLAG (mp_irq_handler eic_id
                                  (irq_latch eic_id irq (EIC_clear_flag msk s)))) n"
          by (subst (asm) EIC_Handler_loop.simps) simp
        then show ?thesis by (simp add: mp_irq_handler_def irq_latch_def)
      qed
    qed
  qed
qed

text \<open>
  Which record is handed to the runtime: that of the first line, from \<open>k\<close> on, that is
  pending and has a record.
\<close>

lemma loop_calls:
  "k \<le> 16 \<Longrightarrow> irq_calls (EIC_Handler_loop isr k (2 ^ k) s) =
     irq_calls s @
     (case List.find (\<lambda>j. bit isr j \<and> machine_pin_irq_objects s ! j \<noteq> None) [k..<16] of
        None \<Rightarrow> [] | Some j \<Rightarrow> [j])"
proof (induction "16 - k" arbitrary: k s)
  case 0
  then show ?case by (simp add: loop_end)
next
  case (Suc d)
  then have lt: "k < 16" by simp
  have upt: "[k..<16] = k # [Suc k..<16]" using lt by (simp add: upt_conv_Cons)
  have IH: "\<And>s'. irq_calls (EIC_Handler_loop isr (Suc k) (2 ^ Suc k) s') =
     irq_calls s' @
     (case List.find (\<lambda>j. bit isr j \<and> machine_pin_irq_objects s' ! j \<noteq> None) [Suc k..<16] of
        None \<Rightarrow> [] | Some j \<Rightarrow> [j])"
    using Suc by (intro Suc.hyps(1)) auto
  show ?case
  proof (cases "bit isr k")
    case False
    then show ?thesis by (simp only: loop_step[OF lt] upt IH if_False find.simps) simp
  next
    case True
    show ?thesis
    proof (cases "machine_pin_irq_objects s ! k")
      case None
      with True show ?thesis
        by (simp only: loop_step[OF lt] upt IH if_True find.simps option.case) simp
    next
      case (Some irq)
      with True show ?thesis
        by (simp only: loop_step[OF lt] upt if_True find.simps option.case)
           (simp add: mp_irq_handler_def irq_latch_def)
    qed
  qed
qed

lemma EIC_Handler_first_pending:
  assumes "e < 16" and "\<forall>j<e. \<not> bit (EIC_INTFLAG s) j"
  shows "EIC_Handler s = EIC_Handler_loop (EIC_INTFLAG s) e (2 ^ e) s"
proof -
  have "EIC_Handler_loop (EIC_INTFLAG s) 0 (2 ^ 0) s =
        EIC_Handler_loop (EIC_INTFLAG s) e (2 ^ e) s"
    using assms by (intro loop_skip) auto
  then show ?thesis by (simp add: EIC_Handler_def EIC_INTFLAG_read_def)
qed

text \<open>
  C2, as amended: when lines 2 and 5 are pending, no lower line is, and line 2 has a
  record, one run of the dispatch routine latches the trigger of that record into its
  flags, hands that record and no other to the runtime, touches no other record, and
  leaves the flag of line 2 clear. (Nothing is said of the flag of line 5.)
\<close>

theorem EIC_Handler_line_2_serviced:
  assumes "length (machine_pin_irq_objects s) = 16"
    and "\<not> bit (EIC_INTFLAG s) 0" and "\<not> bit (EIC_INTFLAG s) 1"
    and "bit (EIC_INTFLAG s) 2" and "bit (EIC_INTFLAG s) 5"
    and "machine_pin_irq_objects s ! 2 = Some irq"
  shows "irq_calls (EIC_Handler s) = irq_calls s @ [2] \<and>
         machine_pin_irq_objects (EIC_Handler s) =
           (machine_pin_irq_objects s)[2 := Some (irq\<lparr>flags := trigger irq\<rparr>)] \<and>
         \<not> bit (EIC_INTFLAG (EIC_Handler s)) 2"
proof -
  have "\<forall>j<2. \<not> bit (EIC_INTFLAG s) j"
    using assms(2,3) by (auto simp: less_2_cases_iff)
  then have "EIC_Handler s = EIC_Handler_loop (EIC_INTFLAG s) 2 (2 ^ 2) s"
    by (intro EIC_Handler_first_pending) simp_all
  also have "\<dots> = mp_irq_handler 2 (irq_latch 2 irq (EIC_clear_flag (2 ^ 2) s))"
    using assms(4,6) by (subst loop_step) simp_all
  finally have eq: "EIC_Handler s = mp_irq_handler 2 (irq_latch 2 irq (EIC_clear_flag (2 ^ 2) s))" .
  show ?thesis
    unfolding eq by (simp add: mp_irq_handler_def irq_latch_def)
qed

theorem EIC_Handler_line_2_serviced_witness:
  "irq_calls (EIC_Handler pending_2_5_both) = [2] \<and>
   machine_pin_irq_objects (EIC_Handler pending_2_5_both) =
     (replicate 16 None)[2 := Some ((irq_bound 2)\<lparr>flags := 3\<rparr>), 5 := Some (irq_bound 5)] \<and>
   \<not> bit (EIC_INTFLAG (EIC_Handler pending_2_5_both)) 2"
proof -
  have objs: "machine_pin_irq_objects pending_2_5_both ! 2 = Some (irq_bound 2)"
    by (simp add: pending_2_5_both_def)
  have "length (machine_pin_irq_objects pending_2_5_both) = 16"
    and "\<not> bit (EIC_INTFLAG pending_2_5_both) 0" and "\<not> bit (EIC_INTFLAG pending_2_5_both) 1"
    and "bit (EIC_INTFLAG pending_2_5_both) 2" and "bit (EIC_INTFLAG pending_2_5_both) 5"
    by (simp_all add: pending_2_5_both_def)
  from EIC_Handler_line_2_serviced [OF this objs]
  show ?thesis
    by (simp add: pending_2_5_both_def power_on_def irq_bound_def list_update_swap)
qed

text \<open>
  C2 as it is written fails where line 2 has no record: with lines 2 and 5 pending
  and a record on line 5 only, one run hands the record of line 5 to the runtime and
  leaves no flag pending.
\<close>

theorem EIC_Handler_line_2_counterexample:
  "EIC_INTFLAG pending_2_5_orphan = 0x24 \<and>
   irq_calls pending_2_5_orphan = [] \<and>
   irq_calls (EIC_Handler pending_2_5_orphan) = [5] \<and>
   EIC_INTFLAG (EIC_Handler pending_2_5_orphan) = 0"
proof -
  have "EIC_INTFLAG pending_2_5_orphan = 0x24" and "irq_calls pending_2_5_orphan = []"
    by (simp_all add: pending_2_5_orphan_def power_on_def)
  moreover have "irq_calls (EIC_Handler pending_2_5_orphan) = [5]"
    by code_simp
  moreover have "EIC_INTFLAG (EIC_Handler pending_2_5_orphan) = 0"
    by code_simp
  ultimately show ?thesis by simp
qed

text \<open>
  With a record on both lines the run services line 2, and the flag of line 5 is gone
  all the same: the write that clears the flag of line 2 clears every pending flag.
\<close>

lemma EIC_Handler_drops_line_5:
  "EIC_INTFLAG pending_2_5_both = 0x24 \<and>
   irq_calls (EIC_Handler pending_2_5_both) = [2] \<and>
   EIC_INTFLAG (EIC_Handler pending_2_5_both) = 0"
proof -
  have "EIC_INTFLAG pending_2_5_both = 0x24"
    by (simp add: pending_2_5_both_def power_on_def)
  moreover have "irq_calls (EIC_Handler pending_2_5_both) = [2]"
    by code_simp
  moreover have "EIC_INTFLAG (EIC_Handler pending_2_5_both) = 0"
    by code_simp
  ultimately show ?thesis by simp
qed

text \<open>
  C3, as amended: when the lowest pending line \<open>e\<close> has no record, one run of the
  dispatch routine leaves the flag of \<open>e\<close> clear and hands no record to the runtime for
  line \<open>e\<close>; the scan goes on above \<open>e\<close>, and the record handed over is that of the
  first higher line that is pending and has one; when there is no such line, none is.
\<close>

theorem EIC_Handler_orphan_line:
  assumes "length (machine_pin_irq_objects s) = 16"
    and "e < 16" and "bit (EIC_INTFLAG s) e" and "\<forall>j<e. \<not> bit (EIC_INTFLAG s) j"
    and "machine_pin_irq_objects s ! e = None"
  shows "\<not> bit (EIC_INTFLAG (EIC_Handler s)) e \<and>
         irq_calls (EIC_Handler s) =
           irq_calls s @
           (case List.find (\<lambda>j. bit (EIC_INTFLAG s) j \<and> machine_pin_irq_objects s ! j \<noteq> None)
                   [Suc e..<16] of
              None \<Rightarrow> [] | Some j \<Rightarrow> [j])"
proof -
  let ?s1 = "EIC_clear_flag (2 ^ e) s"
  have "EIC_Handler s = EIC_Handler_loop (EIC_INTFLAG s) e (2 ^ e) s"
    using assms(2,4) by (rule EIC_Handler_first_pending)
  also have "\<dots> = EIC_Handler_loop (EIC_INTFLAG s) (Suc e) (2 ^ Suc e) ?s1"
    using assms(2,3,5) by (subst loop_step) simp_all
  finally have eq: "EIC_Handler s = EIC_Handler_loop (EIC_INTFLAG s) (Suc e) (2 ^ Suc e) ?s1" .
  have "\<not> bit (EIC_INTFLAG ?s1) e"
    by simp
  then have cleared: "\<not> bit (EIC_INTFLAG (EIC_Handler s)) e"
    unfolding eq using loop_INTFLAG_mono by blast
  have "Suc e \<le> 16" using assms(2) by simp
  from loop_calls [OF this, of "EIC_INTFLAG s" ?s1]
  have "irq_calls (EIC_Handler s) =
           irq_calls s @
           (case List.find (\<lambda>j. bit (EIC_INTFLAG s) j \<and> machine_pin_irq_objects s ! j \<noteq> None)
                   [Suc e..<16] of
              None \<Rightarrow> [] | Some j \<Rightarrow> [j])"
    unfolding eq by simp
  with cleared show ?thesis by simp
qed

theorem EIC_Handler_orphan_line_witness:
  "\<not> bit (EIC_INTFLAG (EIC_Handler pending_3_5_orphan)) 3 \<and>
   irq_calls (EIC_Handler pending_3_5_orphan) = [5]"
proof -
  have f: "List.find (\<lambda>j. bit (EIC_INTFLAG pending_3_5_orphan) j \<and>
                          machine_pin_irq_objects pending_3_5_orphan ! j \<noteq> None)
             [Suc 3..<16] = Some 5"
    by code_simp
  have "length (machine_pin_irq_objects pending_3_5_orphan) = 16"
    and "(3::nat) < 16" and "bit (EIC_INTFLAG pending_3_5_orphan) 3"
    and "\<forall>j<3. \<not> bit (EIC_INTFLAG pending_3_5_orphan) j"
    and "machine_pin_irq_objects pending_3_5_orphan ! 3 = None"
    by (simp_all add: pending_3_5_orphan_def less_Suc_eq numeral_3_eq_3)
  from EIC_Handler_orphan_line [OF this]
  show ?thesis by (simp add: f) (simp add: pending_3_5_orphan_def power_on_def)
qed

text \<open>
  C3 as it is written fails where a higher pending line has a record: with lines 0
  and 3 pending and a record on line 3 only, the lowest pending line has no record and
  yet the run hands the record of line 3 to the runtime.
\<close>

theorem EIC_Handler_orphan_line_counterexample:
  "EIC_INTFLAG pending_0_3_orphan = 0x09 \<and>
   machine_pin_irq_objects pending_0_3_orphan ! 0 = None \<and>
   irq_calls pending_0_3_orphan = [] \<and>
   irq_calls (EIC_Handler pending_0_3_orphan) = [3]"
proof -
  have "EIC_INTFLAG pending_0_3_orphan = 0x09" and "irq_calls pending_0_3_orphan = []"
    and "machine_pin_irq_objects pending_0_3_orphan ! 0 = None"
    by (simp_all add: pending_0_3_orphan_def power_on_def)
  moreover have "irq_calls (EIC_Handler pending_0_3_orphan) = [3]"
    by code_simp
  ultimately show ?thesis by simp
qed

end
